theory Spec2Isabelle
  imports Complex_Main "HOL-Library.Log_Nat"
begin

section \<open>Python values used by the notebooks\<close>

text \<open>
  The exceptions the modelled Python code can raise. A function that can raise returns
  \<open>py_error + 'a\<close>, with \<open>Inl\<close> for the exception.
\<close>

datatype py_error =
  TypeError | OverflowError | KeyError | AttributeError | ValueError | RuntimeError

subsection \<open>Python floats: IEEE 754 binary64 values as rationals\<close>

text \<open>
  A Python \<open>float\<close> is a binary64 number. A finite one is a rational, and every float
  operation returns the exact result rounded to the nearest representable number, ties
  to the even significand. \<open>round_half_even\<close> rounds a rational to an integer that way.
\<close>

definition round_half_even :: "rat \<Rightarrow> int" where
  "round_half_even y =
     (let f = \<lfloor>y\<rfloor>; r = y - of_int f
      in if r < 1 / 2 then f
         else if 1 / 2 < r then f + 1
         else if even f then f else f + 1)"

text \<open>
  \<open>floor_log2 x\<close> is the binary exponent of a positive rational: the \<open>e\<close> with
  \<open>2 powi e \<le> x < 2 powi (e + 1)\<close>. The difference of the bit lengths of numerator
  and denominator is that exponent or one more.
\<close>

definition floor_log2 :: "rat \<Rightarrow> int" where
  "floor_log2 x =
     (let (a, b) = quotient_of x;
          k = int (floorlog 2 (nat a)) - int (floorlog 2 (nat b))
      in if 2 powi k \<le> x then k else k - 1)"

text \<open>
  \<open>round_double x\<close> is the binary64 number nearest to \<open>x\<close>: 53 significant bits, so the
  spacing of representable numbers around \<open>x\<close> is \<open>2 powi (e - 52)\<close>, where the exponent
  \<open>e\<close> does not go below \<open>- 1022\<close> (the subnormal range). Results beyond the largest
  binary64 number (about \<open>2 powi 1024\<close>) would be infinite; every number rounded in this
  file has magnitude at most 2.
\<close>

definition round_double :: "rat \<Rightarrow> rat" where
  "round_double x =
     (if x = 0 then 0
      else let e = max (floor_log2 \<bar>x\<bar>) (- 1022);
               q = 2 powi (e - 52)
           in q * of_int (round_half_even (x / q)))"

section \<open>Unitarity RB notebook: \<open>depolarizing_noise\<close>\<close>

text \<open>
  \<^verbatim>\<open>
  num_of_operators = 4**num_qubits
  probabilities = [p+(1.0-p)/num_of_operators] + [(1.0 - p)/num_of_operators]*(num_of_operators-1)
  return noise.pauli_kraus_map(probabilities)
  \<close>
  \<open>probabilities_with rnd\<close> is the list expression, with \<open>rnd\<close> applied to the exact result
  of each of the three float operations (subtraction, division, addition). Python computes
  it with \<open>rnd = round_double\<close>; \<open>rnd = id\<close> is the same expression in exact arithmetic.
\<close>

definition probabilities_with :: "(rat \<Rightarrow> rat) \<Rightarrow> nat \<Rightarrow> rat \<Rightarrow> rat list" where
  "probabilities_with rnd num_of_operators p =
     [rnd (p + rnd (rnd (1 - p) / of_nat num_of_operators))]
       @ replicate (num_of_operators - 1) (rnd (rnd (1 - p) / of_nat num_of_operators))"

text \<open>
  The list \<open>depolarizing_noise\<close> builds. For a negative \<open>num_qubits\<close>, \<open>4**num_qubits\<close> is
  a float and repeating a list a float number of times raises \<open>TypeError\<close>; from
  \<open>num_qubits = 512\<close> on, \<open>4**num_qubits\<close> is an integer too large to convert to a float
  for the division, which raises \<open>OverflowError\<close>. In between, the integer converts to a
  float exactly (it is a power of two), and the list is built (also one too long for the
  memory of a machine).
\<close>

definition depolarizing_probabilities :: "int \<Rightarrow> rat \<Rightarrow> py_error + rat list" where
  "depolarizing_probabilities num_qubits p =
     (if num_qubits < 0 then Inl TypeError
      else if 512 \<le> num_qubits then Inl OverflowError
      else Inr (probabilities_with round_double (4 ^ nat num_qubits) p))"

text \<open>
  \<open>depolarizing_noise\<close> hands the list to pyquil's \<open>noise.pauli_kraus_map\<close>, a library
  function outside the repository, taken as the parameter \<open>pauli_kraus_map\<close>.
\<close>

definition depolarizing_noise ::
  "(rat list \<Rightarrow> py_error + 'k) \<Rightarrow> int \<Rightarrow> rat \<Rightarrow> py_error + 'k" where
  "depolarizing_noise pauli_kraus_map num_qubits p =
     (case depolarizing_probabilities num_qubits p of
        Inl e \<Rightarrow> Inl e
      | Inr probabilities \<Rightarrow> pauli_kraus_map probabilities)"

section \<open>Unitarity RB notebook: \<open>insert_noise\<close> and \<open>add_noise_to_sequences\<close>\<close>

subsection \<open>Programs and dataframes as objects in a store\<close>

text \<open>
  A pyquil \<open>Program\<close> is a mutable object holding its gate definitions and its
  instructions. A gate definition is a name and a matrix. The instructions that matter
  here are gate applications and the \<open>PRAGMA ADD-KRAUS\<close> lines that define a noisy gate,
  one line for each Kraus operator. Kraus operators are values of a type \<open>'m\<close>.
\<close>

datatype 'm instruction =
    Gate string "nat list"
  | AddKraus string "nat list" 'm

record 'm program =
  defined_gates :: "(string \<times> rat list list) list"
  instructions :: "'m instruction list"

text \<open>
  The three \<open>Program\<close> methods the notebook calls, pyquil 2.7.0 being the oldest version
  the requirements admit. \<open>defgate\<close> appends a gate definition; its checks (a square
  matrix whose dimension is a power of two) hold for every identity matrix the notebook
  passes.
\<close>

definition defgate :: "string \<Rightarrow> rat list list \<Rightarrow> 'm program \<Rightarrow> 'm program" where
  "defgate name matrix prog = prog\<lparr>defined_gates := defined_gates prog @ [(name, matrix)]\<rparr>"

text \<open>
  \<open>define_noisy_gate\<close> first checks the Kraus operators against the number of qubits
  (their shape and their normalisation) and raises \<open>ValueError\<close> when the check fails;
  otherwise it appends one \<open>ADD-KRAUS\<close> pragma for each operator. The check is pyquil's,
  taken as the parameter \<open>check_kraus_ops\<close>.
\<close>

definition define_noisy_gate ::
  "(nat \<Rightarrow> 'm list \<Rightarrow> bool) \<Rightarrow> string \<Rightarrow> nat list \<Rightarrow> 'm list \<Rightarrow> 'm program
    \<Rightarrow> py_error + 'm program" where
  "define_noisy_gate check_kraus_ops name qubit_indices kraus_ops prog =
     (if check_kraus_ops (length qubit_indices) kraus_ops
      then Inr (prog\<lparr>instructions :=
                  instructions prog @ map (AddKraus name qubit_indices) kraus_ops\<rparr>)
      else Inl ValueError)"

text \<open>
  \<open>inst\<close> of the tuple \<open>(name, *qubits)\<close>, given as the pair of the name and the qubits:
  with at least one qubit it appends the gate application; the tuple of the name alone is
  read as a line of Quil, which \<open>"noise"\<close> is not, and raises \<open>RuntimeError\<close>.
\<close>

definition inst :: "string \<times> nat list \<Rightarrow> 'm program \<Rightarrow> py_error + 'm program" where
  "inst instruction prog =
     (case instruction of
        (name, []) \<Rightarrow> Inl RuntimeError
      | (name, q # qs) \<Rightarrow> Inr (prog\<lparr>instructions := instructions prog @ [Gate name (q # qs)]\<rparr>))"

text \<open>\<open>np.eye(n)\<close>: the \<open>n \<times> n\<close> identity matrix.\<close>

definition eye :: "nat \<Rightarrow> rat list list" where
  "eye n = map (\<lambda>i. map (\<lambda>j. if i = j then 1 else 0) [0..<n]) [0..<n]"

text \<open>
  An instance of the check for Kraus operators given as matrices, used in the examples:
  every operator on \<open>n\<close> qubits is a \<open>2 ^ n \<times> 2 ^ n\<close> matrix.
\<close>

definition kraus_shape_ok :: "nat \<Rightarrow> rat list list list \<Rightarrow> bool" where
  "kraus_shape_ok n kraus_ops =
     list_all (\<lambda>k. length k = 2 ^ n \<and> list_all (\<lambda>row. length row = 2 ^ n) k) kraus_ops"

text \<open>
  Objects live in a store and are named by their address, the index in the store. A
  dataframe is its columns in order, each a name and the list of its cells; a cell of the
  \<open>"Sequence"\<close> column is a list of references to \<open>Program\<close> objects, any other cell is
  plain data. An address outside the store stands for an object of another class.
\<close>

type_synonym addr = nat

datatype cell = Programs "addr list" | Data int

type_synonym dataframe = "(string \<times> cell list) list"

record 'm store =
  programs :: "'m program list"
  frames :: "dataframe list"

subsection \<open>The two functions\<close>

text \<open>
  \<^verbatim>\<open>
  for program in programs:
      program.defgate("noise", np.eye(2**len(qubits)))
      program.define_noisy_gate("noise", qubits, noise(*noise_args))
      program.inst(("noise", *qubits))
  \<close>
  The function works on the program objects of the store and returns the store it leaves
  behind, also when it raises: an exception in the middle of the loop body leaves the
  program with what the calls before it appended. \<open>noise(*noise_args)\<close> is evaluated
  after \<open>defgate\<close> has run, once per program.
\<close>

fun insert_noise ::
  "(nat \<Rightarrow> 'm list \<Rightarrow> bool) \<Rightarrow> 'm program list \<Rightarrow> addr list \<Rightarrow> nat list
    \<Rightarrow> ('a \<Rightarrow> py_error + 'm list) \<Rightarrow> 'a \<Rightarrow> 'm program list \<times> (py_error + unit)" where
  "insert_noise check_kraus_ops ps [] qubits noise noise_args = (ps, Inr ())"
| "insert_noise check_kraus_ops ps (program # rest) qubits noise noise_args =
     (if length ps \<le> program then (ps, Inl AttributeError)
      else
        let ps1 = ps[program := defgate ''noise'' (eye (2 ^ length qubits)) (ps ! program)]
        in case noise noise_args of
             Inl e \<Rightarrow> (ps1, Inl e)
           | Inr kraus_ops \<Rightarrow>
               (case define_noisy_gate check_kraus_ops ''noise'' qubits kraus_ops (ps1 ! program) of
                  Inl e \<Rightarrow> (ps1, Inl e)
                | Inr prog2 \<Rightarrow>
                    let ps2 = ps1[program := prog2]
                    in case inst (''noise'', qubits) (ps2 ! program) of
                         Inl e \<Rightarrow> (ps2, Inl e)
                       | Inr prog3 \<Rightarrow>
                           insert_noise check_kraus_ops (ps2[program := prog3]) rest
                             qubits noise noise_args))"

text \<open>
  \<^verbatim>\<open>
  new_df = df.copy()
  for seq in new_df["Sequence"].values:
      insert_noise(seq, qubits, noise, *noise_args)
  return new_df
  \<close>
  The loop over the cells of the column: a cell that is not a list of programs cannot be
  iterated over as one.
\<close>

fun insert_noise_cells ::
  "(nat \<Rightarrow> 'm list \<Rightarrow> bool) \<Rightarrow> 'm program list \<Rightarrow> cell list \<Rightarrow> nat list
    \<Rightarrow> ('a \<Rightarrow> py_error + 'm list) \<Rightarrow> 'a \<Rightarrow> 'm program list \<times> (py_error + unit)" where
  "insert_noise_cells check_kraus_ops ps [] qubits noise noise_args = (ps, Inr ())"
| "insert_noise_cells check_kraus_ops ps (Data d # rest) qubits noise noise_args =
     (ps, Inl TypeError)"
| "insert_noise_cells check_kraus_ops ps (Programs seq # rest) qubits noise noise_args =
     (case insert_noise check_kraus_ops ps seq qubits noise noise_args of
        (ps', Inl e) \<Rightarrow> (ps', Inl e)
      | (ps', Inr u) \<Rightarrow> insert_noise_cells check_kraus_ops ps' rest qubits noise noise_args)"

text \<open>
  \<open>df.copy()\<close> makes a new dataframe object with the same cells: pandas copies the
  column arrays, not the Python objects the cells refer to. The new object takes the next
  free address.
\<close>

definition add_noise_to_sequences ::
  "(nat \<Rightarrow> 'm list \<Rightarrow> bool) \<Rightarrow> 'm store \<Rightarrow> addr \<Rightarrow> nat list
    \<Rightarrow> ('a \<Rightarrow> py_error + 'm list) \<Rightarrow> 'a \<Rightarrow> 'm store \<times> (py_error + addr)" where
  "add_noise_to_sequences check_kraus_ops st df qubits noise noise_args =
     (if length (frames st) \<le> df then (st, Inl AttributeError)
      else
        let new_df = length (frames st);
            st1 = st\<lparr>frames := frames st @ [frames st ! df]\<rparr>
        in case map_of (frames st1 ! new_df) ''Sequence'' of
             None \<Rightarrow> (st1, Inl KeyError)
           | Some column \<Rightarrow>
               (case insert_noise_cells check_kraus_ops (programs st1) column qubits noise
                       noise_args of
                  (ps, Inl e) \<Rightarrow> (st1\<lparr>programs := ps\<rparr>, Inl e)
                | (ps, Inr u) \<Rightarrow> (st1\<lparr>programs := ps\<rparr>, Inr new_df)))"

text \<open>
  What one pass of the loop body appends to a program when its three calls return, and
  the programs of a store after the body has run once for every reference in \<open>refs\<close>.
\<close>

definition append_noise :: "nat list \<Rightarrow> 'm list \<Rightarrow> 'm program \<Rightarrow> 'm program" where
  "append_noise qubits kraus_ops prog =
     prog\<lparr>defined_gates := defined_gates prog @ [(''noise'', eye (2 ^ length qubits))],
          instructions := instructions prog
            @ map (AddKraus ''noise'' qubits) kraus_ops @ [Gate ''noise'' qubits]\<rparr>"

definition noisy_programs ::
  "nat list \<Rightarrow> 'm list \<Rightarrow> addr list \<Rightarrow> 'm program list \<Rightarrow> 'm program list" where
  "noisy_programs qubits kraus_ops refs ps =
     map (\<lambda>a. (append_noise qubits kraus_ops ^^ count_list refs a) (ps ! a)) [0..<length ps]"

section \<open>The PGDB estimator, as the specification describes it\<close>

text \<open>
  The notebooks only call \<open>pgdb_process_estimate\<close>; its code, the Observation Model and
  the Physical Projector are not among the sources. The definitions of this section are
  written from section 4.4 of the specification. Choi matrices are values of a type \<open>'c\<close>,
  objective values are rationals.
\<close>

text \<open>Modelled from the spec: the estimator's state, "(current Choi estimate, objective
  value, step size)"; the estimator itself is missing from the sources.\<close>

record 'c pgdb_state =
  estimate :: 'c
  objective_value :: rat
  step_size :: rat

text \<open>Modelled from the spec: the terminal states of the missing estimator, "converged",
  "max-iterations" and "stalled".\<close>

datatype terminal = Converged | MaxIterations | Stalled

text \<open>Modelled from the spec: what the missing estimator works with. \<open>objective\<close> and
  \<open>gradient\<close> are the Observation Model's loss and its gradient, \<open>descend x g t\<close> is the
  point a gradient-descent step of size \<open>t\<close> reaches from \<open>x\<close>, \<open>project\<close> is the
  Physical Projector.\<close>

record 'c pgdb_problem =
  objective :: "'c \<Rightarrow> rat"
  gradient :: "'c \<Rightarrow> 'c"
  descend :: "'c \<Rightarrow> 'c \<Rightarrow> rat \<Rightarrow> 'c"
  project :: "'c \<Rightarrow> 'c"

text \<open>Modelled from the spec: the constants of the missing estimator. The iteration
  budget, the retry limit of the backtracking, the sufficient-decrease threshold, the
  factor by which an accepted step size grows, and the tolerance and the number of
  consecutive iterations of the convergence test. The specification leaves their values
  open.\<close>

record pgdb_constants =
  max_iterations :: nat
  retry_limit :: nat
  sufficient_decrease :: rat
  growth :: rat
  tolerance :: rat
  patience :: nat
  initial_step :: rat

text \<open>Modelled from the spec: steps (2) to (4) of an iteration of the missing estimator,
  "take a gradient-descent step scaled by the current step size; re-project onto the
  physical set via the Physical Projector; evaluate the objective at the projected
  point".\<close>

definition candidate :: "'c pgdb_problem \<Rightarrow> 'c pgdb_state \<Rightarrow> 'c \<Rightarrow> rat \<Rightarrow> 'c pgdb_state" where
  "candidate pr s g t =
     (let x = project pr (descend pr (estimate s) g t)
      in \<lparr>estimate = x, objective_value = objective pr x, step_size = t\<rparr>)"

text \<open>Modelled from the spec: the test of step (5) of the missing estimator, whether the
  objective "sufficiently decreased": by at least the sufficient-decrease threshold.\<close>

definition sufficiently_decreased :: "pgdb_constants \<Rightarrow> 'c pgdb_state \<Rightarrow> 'c pgdb_state \<Rightarrow> bool" where
  "sufficiently_decreased k s s' \<longleftrightarrow>
     objective_value s' \<le> objective_value s - sufficient_decrease k"

text \<open>Modelled from the spec: step (5) of the missing estimator, "if the objective fails to
  sufficiently decrease, halve the step size and retry (2)-(4) up to a retry limit,
  otherwise accept the point and optionally grow the step size for the next iteration".
  \<open>None\<close>: the retries are used up and no point was accepted.\<close>

fun backtrack ::
  "'c pgdb_problem \<Rightarrow> pgdb_constants \<Rightarrow> nat \<Rightarrow> 'c pgdb_state \<Rightarrow> 'c \<Rightarrow> rat
    \<Rightarrow> 'c pgdb_state option" where
  "backtrack pr k 0 s g t =
     (let s' = candidate pr s g t
      in if sufficiently_decreased k s s' then Some (s'\<lparr>step_size := growth k * t\<rparr>) else None)"
| "backtrack pr k (Suc retries) s g t =
     (let s' = candidate pr s g t
      in if sufficiently_decreased k s s' then Some (s'\<lparr>step_size := growth k * t\<rparr>)
         else backtrack pr k retries s g (t / 2))"

text \<open>Modelled from the spec: the iterations of the missing estimator, with the points it
  accepted, in order, and the terminal state it ended in. Step (1) computes the gradient;
  a run is "converged" when the objective improved by less than the tolerance for
  \<open>patience\<close> consecutive iterations, "stalled" when backtracking accepted no point, and
  ends at "max-iterations" when the budget is used up.\<close>

fun iterate ::
  "'c pgdb_problem \<Rightarrow> pgdb_constants \<Rightarrow> nat \<Rightarrow> nat \<Rightarrow> 'c pgdb_state
    \<Rightarrow> 'c pgdb_state list \<times> terminal" where
  "iterate pr k 0 streak s = ([], MaxIterations)"
| "iterate pr k (Suc budget) streak s =
     (case backtrack pr k (retry_limit k) s (gradient pr (estimate s)) (step_size s) of
        None \<Rightarrow> ([], Stalled)
      | Some s' \<Rightarrow>
          let streak' = (if objective_value s - objective_value s' < tolerance k
                         then Suc streak else 0)
          in if patience k \<le> streak' then ([s'], Converged)
             else let (accepted, term) = iterate pr k budget streak' s'
                  in (s' # accepted, term))"

text \<open>Modelled from the spec: a run of the missing estimator from an initial Choi matrix
  \<open>x0\<close>. The result is the initial state followed by the accepted points, and the
  terminal state.\<close>

definition pgdb_run ::
  "'c pgdb_problem \<Rightarrow> pgdb_constants \<Rightarrow> 'c \<Rightarrow> 'c pgdb_state list \<times> terminal" where
  "pgdb_run pr k x0 =
     (let s0 = \<lparr>estimate = x0, objective_value = objective pr x0, step_size = initial_step k\<rparr>;
          (accepted, term) = iterate pr k (max_iterations k) 0 s0
      in (s0 # accepted, term))"

section \<open>Properties\<close>

subsection \<open>Rounding to binary64\<close>

lemma round_half_even_error: "\<bar>of_int (round_half_even y) - y\<bar> \<le> 1 / 2"
  unfolding round_half_even_def Let_def by (auto simp: abs_if) linarith+

lemma floorlog2_rat_bounds:
  assumes "0 < a"
  shows "(2::rat) powi (int (floorlog 2 (nat a)) - 1) \<le> of_int a"
    and "(of_int a :: rat) < 2 powi (int (floorlog 2 (nat a)))"
proof -
  let ?l = "floorlog 2 (nat a)"
  have pos: "0 < nat a" using assms by simp
  have b: "2 ^ (?l - 1) \<le> nat a" "nat a < 2 ^ ?l"
    using floorlog_bounds [OF pos, of 2] by simp_all
  have "?l \<noteq> 0"
    using pos by (simp add: floorlog_eq_zero_iff)
  then have l1: "1 \<le> ?l" by simp
  have "(of_nat (2 ^ (?l - 1)) :: rat) \<le> of_nat (nat a)"
    using b(1) of_nat_le_iff by blast
  then have "(2::rat) ^ (?l - 1) \<le> of_int a"
    using assms by simp
  moreover have "int ?l - 1 = int (?l - 1)" using l1 by simp
  ultimately show "(2::rat) powi (int ?l - 1) \<le> of_int a"
    by (simp only: power_int_of_nat)
  have "(of_nat (nat a) :: rat) < of_nat (2 ^ ?l)"
    using b(2) of_nat_less_iff by blast
  then show "(of_int a :: rat) < 2 powi (int ?l)"
    using assms by simp
qed

lemma floor_log2_bounds:
  assumes "0 < x"
  shows "2 powi (floor_log2 x) \<le> x" and "x < 2 powi (floor_log2 x + 1)"
proof -
  obtain a b where q: "quotient_of x = (a, b)" by (cases "quotient_of x")
  have bpos: "0 < b" using q by (rule quotient_of_denom_pos)
  have xeq: "x = of_int a / of_int b" using q by (rule quotient_of_div)
  have apos: "0 < a" using assms bpos xeq by (simp add: zero_less_divide_iff)
  define la where "la = int (floorlog 2 (nat a))"
  define lb where "lb = int (floorlog 2 (nat b))"
  have A: "(2::rat) powi (la - 1) \<le> of_int a" "(of_int a :: rat) < 2 powi la"
    unfolding la_def using floorlog2_rat_bounds [OF apos] by simp_all
  have B: "(2::rat) powi (lb - 1) \<le> of_int b" "(of_int b :: rat) < 2 powi lb"
    unfolding lb_def using floorlog2_rat_bounds [OF bpos] by simp_all
  have bq: "(0::rat) < of_int b" using bpos by simp
  have aq: "(0::rat) < of_int a" using apos by simp
  have p: "\<And>k. (0::rat) < 2 powi k" by simp
  have low: "2 powi (la - lb - 1) \<le> x"
  proof -
    have "(2::rat) powi (la - lb - 1) = 2 powi (la - 1) / 2 powi lb"
      by (simp add: power_int_diff)
    also have "\<dots> \<le> of_int a / 2 powi lb"
      using A(1) p by (simp add: divide_right_mono)
    also have "\<dots> \<le> of_int a / of_int b"
      using B(2) aq bq by (simp add: frac_le)
    finally show ?thesis by (simp add: xeq)
  qed
  have up: "x < 2 powi (la - lb + 1)"
  proof -
    have "x = of_int a / of_int b" by (rule xeq)
    also have "\<dots> < 2 powi la / of_int b"
      using A(2) bq by (simp add: divide_strict_right_mono)
    also have "\<dots> \<le> 2 powi la / 2 powi (lb - 1)"
    proof (rule divide_left_mono)
      show "(2::rat) powi (lb - 1) \<le> of_int b" by (rule B(1))
      show "(0::rat) \<le> 2 powi la" by simp
      show "(0::rat) < of_int b * 2 powi (lb - 1)" using bq by simp
    qed
    also have "\<dots> = 2 powi (la - (lb - 1))"
      by (simp add: power_int_diff)
    finally show ?thesis by (simp add: algebra_simps)
  qed
  have fl: "floor_log2 x = (if 2 powi (la - lb) \<le> x then la - lb else la - lb - 1)"
    by (simp add: floor_log2_def q la_def lb_def Let_def)
  show "2 powi (floor_log2 x) \<le> x"
    using low by (simp add: fl)
  show "x < 2 powi (floor_log2 x + 1)"
    using up by (auto simp add: fl not_le)
qed

lemma pow2_less_cancel: "(2::rat) powi m < 2 powi n \<Longrightarrow> m < n"
  using power_int_increasing [of n m "2::rat"] by (cases "m < n") simp_all

lemma pow2_le_cancel: "(2::rat) powi m \<le> 2 powi n \<Longrightarrow> m \<le> n"
  using power_int_strict_increasing [of n m "2::rat"] by (cases "m \<le> n") simp_all

lemma floor_log2_eqI:
  assumes "2 powi e \<le> x" "x < 2 powi (e + 1)"
  shows "floor_log2 x = e"
proof -
  have pos: "0 < x"
    using assms(1) by (rule less_le_trans [rotated]) simp
  have "(2::rat) powi e < 2 powi (floor_log2 x + 1)"
    using assms(1) floor_log2_bounds(2) [OF pos] by (rule le_less_trans)
  then have 1: "e < floor_log2 x + 1"
    by (rule pow2_less_cancel)
  have "(2::rat) powi (floor_log2 x) < 2 powi (e + 1)"
    using floor_log2_bounds(1) [OF pos] assms(2) by (rule le_less_trans)
  then have 2: "floor_log2 x < e + 1"
    by (rule pow2_less_cancel)
  from 1 2 show ?thesis by simp
qed

text \<open>Rounding a number of magnitude at most \<open>2 powi K\<close> moves it by at most \<open>2 powi (K - 53)\<close>.\<close>

lemma round_double_error:
  assumes "\<bar>x\<bar> \<le> 2 powi K" "- 1022 \<le> K"
  shows "\<bar>round_double x - x\<bar> \<le> 2 powi (K - 53)"
proof (cases "x = 0")
  case True
  then show ?thesis by (simp add: round_double_def)
next
  case False
  define e where "e = max (floor_log2 \<bar>x\<bar>) (- 1022)"
  define q :: rat where "q = 2 powi (e - 52)"
  have pos: "0 < \<bar>x\<bar>" using False by simp
  have "(2::rat) powi (floor_log2 \<bar>x\<bar>) \<le> 2 powi K"
    using floor_log2_bounds(1) [OF pos] assms(1) by (rule order_trans)
  then have "floor_log2 \<bar>x\<bar> \<le> K"
    by (rule pow2_le_cancel)
  then have eK: "e \<le> K" using assms(2) by (simp add: e_def)
  have qpos: "0 < q" by (simp add: q_def)
  have rd: "round_double x = q * of_int (round_half_even (x / q))"
    using False by (simp add: round_double_def Let_def e_def q_def)
  have "\<bar>round_double x - x\<bar> = q * \<bar>of_int (round_half_even (x / q)) - x / q\<bar>"
  proof -
    have "round_double x - x = q * (of_int (round_half_even (x / q)) - x / q)"
      using qpos by (simp add: rd algebra_simps)
    then show ?thesis using qpos by (simp add: abs_mult)
  qed
  also have "\<dots> \<le> q * (1 / 2)"
    using round_half_even_error [of "x / q"] qpos by (simp del: times_divide_eq_right)
  also have "\<dots> = 2 powi (e - 53)"
  proof -
    have "(2::rat) powi (e - 52) = 2 powi (e - 53 + 1)" by simp
    also have "\<dots> = 2 powi (e - 53) * 2" by (subst power_int_add_1) simp_all
    finally show ?thesis by (simp add: q_def)
  qed
  also have "\<dots> \<le> 2 powi (K - 53)"
    using eK by (simp add: power_int_increasing)
  finally show ?thesis .
qed

text \<open>Evaluating \<open>round_double\<close> at a number whose binary exponent is known.\<close>

lemma round_double_eval:
  assumes "x \<noteq> 0" "2 powi e \<le> \<bar>x\<bar>" "\<bar>x\<bar> < 2 powi (e + 1)" "- 1022 \<le> e"
  shows "round_double x = 2 powi (e - 52) * of_int (round_half_even (x / 2 powi (e - 52)))"
proof -
  have "floor_log2 \<bar>x\<bar> = e" using assms(2,3) by (rule floor_log2_eqI)
  then show ?thesis using assms(1,4) by (simp add: round_double_def Let_def max_def)
qed

subsection \<open>The probabilities of \<open>depolarizing_noise\<close>\<close>

lemma sum_probabilities_with:
  "0 < N \<Longrightarrow> sum_list (probabilities_with rnd N p) =
     rnd (p + rnd (rnd (1 - p) / of_nat N)) + (of_nat N - 1) * rnd (rnd (1 - p) / of_nat N)"
  by (simp add: probabilities_with_def sum_list_replicate of_nat_diff)

lemma sum_probabilities_exact: "0 < N \<Longrightarrow> sum_list (probabilities_with id N p) = 1"
  by (simp add: sum_probabilities_with field_simps)

lemma rounded_sum_error:
  fixes Nr :: rat
  assumes p: "0 \<le> p" "p \<le> 1" and Nr: "Nr = 2 powi J" and J: "2 \<le> J" "J \<le> 1000"
  defines "s \<equiv> round_double (1 - p)"
  defines "b \<equiv> round_double (s / Nr)"
  defines "a \<equiv> round_double (p + b)"
  shows "\<bar>a + (Nr - 1) * b - 1\<bar> \<le> 2 powi (- 50)"
proof -
  have Npos: "0 < Nr" by (simp add: Nr)
  have d1: "\<bar>s - (1 - p)\<bar> \<le> 2 powi (- 53)"
    unfolding s_def using round_double_error [of "1 - p" 0] p by simp
  have "(2::rat) powi (- 53) \<le> 1" by simp
  with d1 have "\<bar>s - (1 - p)\<bar> \<le> 1" by linarith
  then have s2: "\<bar>s\<bar> \<le> 2" using p by linarith
  have "\<bar>s / Nr\<bar> = \<bar>s\<bar> / 2 powi J"
    by (simp add: Nr)
  also have "\<dots> \<le> 2 / 2 powi J"
    using s2 by (simp add: divide_right_mono)
  also have "\<dots> = 2 powi (1 - J)"
    by (simp add: power_int_diff)
  finally have sN: "\<bar>s / Nr\<bar> \<le> 2 powi (1 - J)" .
  have d3: "\<bar>b - s / Nr\<bar> \<le> 2 powi (1 - J - 53)"
    unfolding b_def using sN J by (intro round_double_error) simp_all
  have "Nr * \<bar>b - s / Nr\<bar> \<le> Nr * 2 powi (1 - J - 53)"
    using d3 Npos by (intro mult_left_mono) simp_all
  also have "\<dots> = 2 powi J * 2 powi (1 - J - 53)"
    by (simp only: Nr)
  also have "\<dots> = 2 powi (J + (1 - J - 53))"
    by (rule power_int_add [symmetric]) simp
  also have "J + (1 - J - 53) = - 52" by simp
  finally have d3': "Nr * \<bar>b - s / Nr\<bar> \<le> 2 powi (- 52)" .
  have k1: "(2::rat) powi (1 - J) \<le> 2 powi (- 1)"
    using J by (intro power_int_increasing) simp_all
  have k2: "(2::rat) powi (1 - J - 53) \<le> 2 powi (- 1)"
    using J by (intro power_int_increasing) simp_all
  have half: "(2::rat) powi (- 1) = 1 / 2" by (simp add: power_int_minus)
  have b1: "\<bar>b\<bar> \<le> 1"
    using sN d3 k1 k2 unfolding half by linarith
  have d2: "\<bar>a - (p + b)\<bar> \<le> 2 powi (- 52)"
  proof -
    have "\<bar>p + b\<bar> \<le> 2 powi 1" using p b1 by simp
    then have "\<bar>a - (p + b)\<bar> \<le> 2 powi (1 - 53)"
      unfolding a_def by (rule round_double_error) simp
    then show ?thesis by simp
  qed
  define t where "t = Nr * (b - s / Nr)"
  have t: "\<bar>t\<bar> \<le> 2 powi (- 52)"
    using d3' Npos by (simp add: t_def abs_mult)
  have "a + (Nr - 1) * b - 1 = (a - (p + b)) + t + (s - (1 - p))"
    using Npos by (simp add: t_def field_simps)
  then have "\<bar>a + (Nr - 1) * b - 1\<bar> \<le> \<bar>a - (p + b)\<bar> + \<bar>t\<bar> + \<bar>s - (1 - p)\<bar>"
    by linarith
  also have "\<dots> \<le> 2 powi (- 52) + 2 powi (- 52) + 2 powi (- 53)"
    using d1 d2 t by linarith
  also have "\<dots> \<le> 2 powi (- 50)" by simp
  finally show ?thesis .
qed

lemma sum_probabilities_rounded:
  assumes p: "0 \<le> p" "p \<le> 1" and n: "n = 1 \<or> n = 2"
  shows "\<bar>sum_list (probabilities_with round_double (4 ^ n) p) - 1\<bar> \<le> 2 powi (- 50)"
proof -
  have eq: "(of_nat (4 ^ n) :: rat) = 2 powi (2 * int n)"
    using n by auto
  have J: "2 \<le> 2 * int n" "2 * int n \<le> 1000" using n by auto
  show ?thesis
    using rounded_sum_error [OF p eq J]
    by (simp only: sum_probabilities_with [of "4 ^ n", OF zero_less_power [of 4 n, OF zero_less_numeral]])
qed

text \<open>The float nearest to 0.95, the default \<open>p\<close>, and the three roundings at it for one qubit.\<close>

lemma round_double_095_sub:
  "round_double (225179981368525 / 4503599627370496) = 225179981368525 / 4503599627370496"
  using round_double_eval [of "225179981368525 / 4503599627370496" "- 5"]
  by (simp add: round_half_even_def Let_def)

lemma round_double_095_div:
  "round_double (225179981368525 / 18014398509481984) = 225179981368525 / 18014398509481984"
  using round_double_eval [of "225179981368525 / 18014398509481984" "- 7"]
  by (simp add: round_half_even_def Let_def)

lemma floor_095_tie: "\<lfloor>17338858565376409 / 2 :: rat\<rfloor> = 8669429282688204"
  by (rule floor_unique) simp_all

lemma round_double_095_add:
  "round_double (17338858565376409 / 18014398509481984) = 2167357320672051 / 2251799813685248"
  using round_double_eval [of "17338858565376409 / 18014398509481984" "- 1"]
  by (simp add: round_half_even_def Let_def floor_095_tie)

lemma depolarizing_probabilities_095:
  "depolarizing_probabilities 1 (4278419646001971 / 4503599627370496) =
     Inr [2167357320672051 / 2251799813685248, 225179981368525 / 18014398509481984,
          225179981368525 / 18014398509481984, 225179981368525 / 18014398509481984]"
  by (simp add: depolarizing_probabilities_def probabilities_with_def numeral_eq_Suc
      round_double_095_sub round_double_095_div round_double_095_add)

text \<open>
  Claim C9, as amended. For \<open>num_qubits\<close> 1 or 2 and \<open>p\<close> in \<open>[0, 1]\<close>,
  \<open>depolarizing_noise\<close> builds a list of exactly \<open>4 ^ num_qubits\<close> probabilities and
  passes it to \<open>pauli_kraus_map\<close>. Its first entry is \<open>p + (1.0 - p) / 4 ^ num_qubits\<close>
  and every other entry \<open>(1.0 - p) / 4 ^ num_qubits\<close>, each as computed in binary64
  arithmetic, that is with every operation rounded. The entries then sum to 1 up to
  rounding, within \<open>2 powi (- 50)\<close>; the same expression in exact arithmetic has first
  entry \<open>p + (1 - p) / 4 ^ num_qubits\<close>, the others \<open>(1 - p) / 4 ^ num_qubits\<close>, and sums
  to exactly 1.
\<close>

theorem depolarizing_noise_probabilities:
  assumes "num_qubits = 1 \<or> num_qubits = 2" and "0 \<le> p" and "p \<le> 1"
  shows "\<exists>probs. depolarizing_probabilities num_qubits p = Inr probs
           \<and> depolarizing_noise pauli_kraus_map num_qubits p = pauli_kraus_map probs
           \<and> length probs = 4 ^ nat num_qubits
           \<and> probs ! 0 = round_double (p + round_double (round_double (1 - p) / 4 ^ nat num_qubits))
           \<and> (\<forall>i. 0 < i \<and> i < 4 ^ nat num_qubits \<longrightarrow>
                 probs ! i = round_double (round_double (1 - p) / 4 ^ nat num_qubits))
           \<and> \<bar>sum_list probs - 1\<bar> \<le> 2 powi (- 50)
           \<and> probabilities_with id (4 ^ nat num_qubits) p =
                 (p + (1 - p) / 4 ^ nat num_qubits)
                   # replicate (4 ^ nat num_qubits - 1) ((1 - p) / 4 ^ nat num_qubits)
           \<and> sum_list (probabilities_with id (4 ^ nat num_qubits) p) = 1"
proof -
  define n where "n = nat num_qubits"
  define probs where "probs = probabilities_with round_double (4 ^ n) p"
  have n: "n = 1 \<or> n = 2" using assms(1) by (auto simp: n_def)
  have run: "depolarizing_probabilities num_qubits p = Inr probs"
    using assms(1) by (auto simp: depolarizing_probabilities_def probs_def n_def)
  have call: "depolarizing_noise pauli_kraus_map num_qubits p = pauli_kraus_map probs"
    by (simp add: depolarizing_noise_def run)
  have len: "length probs = 4 ^ n"
    by (simp add: probs_def probabilities_with_def)
  have first: "probs ! 0 = round_double (p + round_double (round_double (1 - p) / 4 ^ n))"
    by (simp add: probs_def probabilities_with_def)
  have rest: "probs ! i = round_double (round_double (1 - p) / 4 ^ n)"
    if "0 < i" "i < 4 ^ n" for i
    using that by (simp add: probs_def probabilities_with_def nth_Cons')
  have near: "\<bar>sum_list probs - 1\<bar> \<le> 2 powi (- 50)"
    unfolding probs_def using assms(2,3) n by (rule sum_probabilities_rounded)
  have exact: "probabilities_with id (4 ^ n) p =
      (p + (1 - p) / 4 ^ n) # replicate (4 ^ n - 1) ((1 - p) / 4 ^ n)"
    by (simp add: probabilities_with_def)
  have one: "sum_list (probabilities_with id (4 ^ n) p) = 1"
    by (rule sum_probabilities_exact) simp
  show ?thesis
    unfolding n_def [symmetric]
    using run call len first rest near exact one by blast
qed

theorem depolarizing_noise_probabilities_witness:
  "((1::int) = 1 \<or> (1::int) = 2)
     \<and> (0::rat) \<le> 4278419646001971 / 4503599627370496
     \<and> (4278419646001971 / 4503599627370496 :: rat) \<le> 1
     \<and> (\<exists>probs. depolarizing_probabilities 1 (4278419646001971 / 4503599627370496) = Inr probs
           \<and> length probs = 4
           \<and> \<bar>sum_list probs - 1\<bar> \<le> 2 powi (- 50))"
proof -
  have h1: "(1::int) = 1 \<or> (1::int) = 2" by simp
  have h2: "(0::rat) \<le> 4278419646001971 / 4503599627370496" by simp
  have h3: "(4278419646001971 / 4503599627370496 :: rat) \<le> 1" by simp
  obtain probs where
    "depolarizing_probabilities 1 (4278419646001971 / 4503599627370496) = Inr probs"
    "length probs = 4 ^ nat 1"
    "\<bar>sum_list probs - 1\<bar> \<le> 2 powi (- 50)"
    using depolarizing_noise_probabilities [OF h1 h2 h3, of "\<lambda>ps. Inr (length ps)"] by blast
  then show ?thesis using h2 h3 by auto
qed

text \<open>
  Claim C9 as stated fails in float arithmetic at the default \<open>p = 0.95\<close> (the float
  nearest to it) for one qubit: the four entries sum to \<open>1 - 2 powi (- 54)\<close>, and the
  first is not \<open>p + (1 - p) / 4\<close>.
\<close>

theorem depolarizing_noise_probabilities_counterexample:
  "depolarizing_probabilities 1 (4278419646001971 / 4503599627370496) =
     Inr [2167357320672051 / 2251799813685248, 225179981368525 / 18014398509481984,
          225179981368525 / 18014398509481984, 225179981368525 / 18014398509481984]
   \<and> sum_list [2167357320672051 / 2251799813685248, 225179981368525 / 18014398509481984,
          225179981368525 / 18014398509481984, 225179981368525 / 18014398509481984 :: rat] \<noteq> 1
   \<and> (2167357320672051 / 2251799813685248 :: rat)
       \<noteq> 4278419646001971 / 4503599627370496 + (1 - 4278419646001971 / 4503599627370496) / 4"
  by (simp add: depolarizing_probabilities_095)

subsection \<open>\<open>insert_noise\<close> and \<open>add_noise_to_sequences\<close>\<close>

text \<open>The calls of the loop body that return.\<close>

lemma define_noisy_gate_accepted:
  "check_kraus_ops (length qubits) kraus_ops \<Longrightarrow>
     define_noisy_gate check_kraus_ops name qubits kraus_ops prog
       = Inr (prog\<lparr>instructions := instructions prog @ map (AddKraus name qubits) kraus_ops\<rparr>)"
  by (simp add: define_noisy_gate_def)

lemma inst_gate:
  "qubits \<noteq> [] \<Longrightarrow>
     inst (name, qubits) prog = Inr (prog\<lparr>instructions := instructions prog @ [Gate name qubits]\<rparr>)"
  by (cases qubits) (simp_all add: inst_def)

lemma length_noisy_programs [simp]: "length (noisy_programs qubits k refs ps) = length ps"
  by (simp add: noisy_programs_def)

lemma nth_noisy_programs:
  "a < length ps \<Longrightarrow>
     noisy_programs qubits k refs ps ! a = (append_noise qubits k ^^ count_list refs a) (ps ! a)"
  by (simp add: noisy_programs_def)

lemma noisy_programs_Nil [simp]: "noisy_programs qubits k [] ps = ps"
  by (rule nth_equalityI) (simp_all add: nth_noisy_programs)

lemma noisy_programs_Cons:
  assumes "a < length ps"
  shows "noisy_programs qubits k refs (ps[a := append_noise qubits k (ps ! a)])
           = noisy_programs qubits k (a # refs) ps"
proof (rule nth_equalityI)
  show "length (noisy_programs qubits k refs (ps[a := append_noise qubits k (ps ! a)]))
          = length (noisy_programs qubits k (a # refs) ps)"
    by simp
next
  fix i
  assume "i < length (noisy_programs qubits k refs (ps[a := append_noise qubits k (ps ! a)]))"
  then have i: "i < length ps" by simp
  show "noisy_programs qubits k refs (ps[a := append_noise qubits k (ps ! a)]) ! i
          = noisy_programs qubits k (a # refs) ps ! i"
    using i assms by (cases "i = a") (simp_all add: nth_noisy_programs funpow_swap1)
qed

lemma funpow_twice: "(f ^^ m) ((f ^^ n) x) = (f ^^ (n + m)) x"
  by (simp add: funpow_add add.commute [of n m])

lemma noisy_programs_append:
  "noisy_programs qubits k refs2 (noisy_programs qubits k refs1 ps)
     = noisy_programs qubits k (refs1 @ refs2) ps"
  by (rule nth_equalityI) (simp_all add: nth_noisy_programs funpow_twice)

text \<open>One pass of the loop body whose three calls return.\<close>

lemma insert_noise_step:
  assumes "a < length ps" and "noise noise_args = Inr k"
    and "check_kraus_ops (length qubits) k" and "qubits \<noteq> []"
  shows "insert_noise check_kraus_ops ps (a # refs) qubits noise noise_args
           = insert_noise check_kraus_ops (ps[a := append_noise qubits k (ps ! a)]) refs
               qubits noise noise_args"
  using assms
  by (simp add: Let_def define_noisy_gate_accepted inst_gate defgate_def append_noise_def)

lemma insert_noise_returns:
  assumes "noise noise_args = Inr k" and "check_kraus_ops (length qubits) k" and "qubits \<noteq> []"
    and "\<forall>a\<in>set refs. a < length ps"
  shows "insert_noise check_kraus_ops ps refs qubits noise noise_args
           = (noisy_programs qubits k refs ps, Inr ())"
  using assms(4)
proof (induction refs arbitrary: ps)
  case Nil
  then show ?case by simp
next
  case (Cons a refs)
  have a: "a < length ps" using Cons.prems by simp
  let ?ps' = "ps[a := append_noise qubits k (ps ! a)]"
  have "\<forall>b\<in>set refs. b < length ?ps'" using Cons.prems by simp
  then have "insert_noise check_kraus_ops ?ps' refs qubits noise noise_args
      = (noisy_programs qubits k refs ?ps', Inr ())"
    by (rule Cons.IH)
  moreover have "insert_noise check_kraus_ops ps (a # refs) qubits noise noise_args
      = insert_noise check_kraus_ops ?ps' refs qubits noise noise_args"
    using a assms(1,2,3) by (rule insert_noise_step)
  ultimately show ?case
    using a by (simp add: noisy_programs_Cons del: insert_noise.simps)
qed

lemma insert_noise_cells_returns:
  assumes "noise noise_args = Inr k" and "check_kraus_ops (length qubits) k" and "qubits \<noteq> []"
    and "\<forall>a\<in>set (concat seqs). a < length ps"
  shows "insert_noise_cells check_kraus_ops ps (map Programs seqs) qubits noise noise_args
           = (noisy_programs qubits k (concat seqs) ps, Inr ())"
  using assms(4)
proof (induction seqs arbitrary: ps)
  case Nil
  then show ?case by simp
next
  case (Cons seq seqs)
  have 1: "insert_noise check_kraus_ops ps seq qubits noise noise_args
      = (noisy_programs qubits k seq ps, Inr ())"
    using assms(1,2,3) Cons.prems by (intro insert_noise_returns) simp_all
  have "\<forall>a\<in>set (concat seqs). a < length (noisy_programs qubits k seq ps)"
    using Cons.prems by simp
  then have 2: "insert_noise_cells check_kraus_ops (noisy_programs qubits k seq ps)
        (map Programs seqs) qubits noise noise_args
      = (noisy_programs qubits k (concat seqs) (noisy_programs qubits k seq ps), Inr ())"
    by (rule Cons.IH)
  show ?case by (simp add: 1 2 noisy_programs_append)
qed

text \<open>
  The passes that raise. Kraus operators that the check rejects: \<open>ValueError\<close>, and the
  program keeps the gate definition. No qubits: \<open>RuntimeError\<close>, and the program keeps
  the gate definition and the pragmas.
\<close>

lemma insert_noise_kraus_rejected:
  assumes "a < length ps" and "noise noise_args = Inr k"
    and "\<not> check_kraus_ops (length qubits) k"
  shows "insert_noise check_kraus_ops ps (a # refs) qubits noise noise_args
           = (ps[a := defgate ''noise'' (eye (2 ^ length qubits)) (ps ! a)], Inl ValueError)"
  using assms by (simp add: Let_def define_noisy_gate_def)

lemma insert_noise_no_qubits:
  assumes "a < length ps" and "noise noise_args = Inr k" and "check_kraus_ops 0 k"
  shows "insert_noise check_kraus_ops ps (a # refs) [] noise noise_args
           = (ps[a := (ps ! a)\<lparr>defined_gates := defined_gates (ps ! a) @ [(''noise'', eye 1)],
                               instructions := instructions (ps ! a)
                                 @ map (AddKraus ''noise'' []) k\<rparr>],
              Inl RuntimeError)"
  using assms by (simp add: Let_def define_noisy_gate_def inst_def defgate_def)

text \<open>
  The identity matrices of the examples, and the identity channel on one qubit, whose one
  Kraus operator is the identity.
\<close>

lemma eye_2: "eye 2 = [[1, 0], [0, 1]]"
  by (simp add: eye_def upt_rec [of 0] upt_rec [of 1] numeral_2_eq_2)

lemma identity_channel_accepted: "kraus_shape_ok (length [0::nat]) [eye 2]"
  by (simp add: kraus_shape_ok_def eye_2)

lemma eye_1: "eye (Suc 0) = [[1]]"
  by (simp add: eye_def)

text \<open>
  Two calls that raise. One-qubit Kraus operators for two qubits: \<open>ValueError\<close>, and the
  caller's program is left with the gate definition. The empty tuple of qubits:
  \<open>RuntimeError\<close>, and the program is left with the gate definition and the pragma.
\<close>

lemma add_noise_to_sequences_two_qubits_one_qubit_noise:
  "add_noise_to_sequences kraus_shape_ok
     \<lparr>programs = [\<lparr>defined_gates = [], instructions = []\<rparr>],
      frames = [[(''Sequence'', [Programs [0]])]]\<rparr>
     0 [0, 1] Inr [eye 2]
   = (\<lparr>programs = [\<lparr>defined_gates = [(''noise'', eye 4)], instructions = []\<rparr>],
       frames = [[(''Sequence'', [Programs [0]])], [(''Sequence'', [Programs [0]])]]\<rparr>,
      Inl ValueError)"
  by (simp add: add_noise_to_sequences_def Let_def defgate_def define_noisy_gate_def
      kraus_shape_ok_def eye_2)

lemma add_noise_to_sequences_no_qubits:
  "add_noise_to_sequences kraus_shape_ok
     \<lparr>programs = [\<lparr>defined_gates = [], instructions = []\<rparr>],
      frames = [[(''Sequence'', [Programs [0]])]]\<rparr>
     0 [] Inr [eye 1]
   = (\<lparr>programs = [\<lparr>defined_gates = [(''noise'', eye 1)],
                     instructions = [AddKraus ''noise'' [] (eye 1)]\<rparr>],
       frames = [[(''Sequence'', [Programs [0]])], [(''Sequence'', [Programs [0]])]]\<rparr>,
      Inl RuntimeError)"
  by (simp add: add_noise_to_sequences_def Let_def defgate_def define_noisy_gate_def inst_def
      kraus_shape_ok_def eye_1)

text \<open>
  Claim C10, as amended. The dataframe has a \<open>"Sequence"\<close> column whose cells are lists
  of \<open>Program\<close> objects, there is at least one qubit, and the noise function returns
  Kraus operators that \<open>define_noisy_gate\<close> accepts for that number of qubits. Then
  \<open>add_noise_to_sequences\<close> returns a new dataframe object, at an address the input
  does not have, whose columns and rows are those of the input, which is itself
  unchanged; so the \<open>Program\<close> objects its \<open>"Sequence"\<close> column refers to are the very
  objects of the input. Every program of the store is mutated in place: for each
  occurrence of the program in the column it gets one \<open>"noise"\<close> gate definition (the
  identity of size \<open>2 ^ length qubits\<close>), one noisy-gate definition (an \<open>ADD-KRAUS\<close>
  pragma for each Kraus operator) and one invocation of the gate appended. A program that
  occurs exactly once gets exactly one of each, a program that does not occur is
  unchanged. The caller's original programs are the mutated ones.
\<close>

theorem add_noise_to_sequences_effect:
  assumes df: "df < length (frames st)"
    and col: "map_of (frames st ! df) ''Sequence'' = Some (map Programs seqs)"
    and refs: "\<forall>a\<in>set (concat seqs). a < length (programs st)"
    and noise: "noise noise_args = Inr kraus_ops"
    and kraus: "check_kraus_ops (length qubits) kraus_ops"
    and qubits: "qubits \<noteq> []"
  shows "\<exists>st' new_df.
           add_noise_to_sequences check_kraus_ops st df qubits noise noise_args
             = (st', Inr new_df)
         \<and> new_df = length (frames st) \<and> new_df \<noteq> df
         \<and> frames st' = frames st @ [frames st ! df]
         \<and> frames st' ! new_df = frames st ! df
         \<and> frames st' ! df = frames st ! df
         \<and> length (programs st') = length (programs st)
         \<and> (\<forall>a. a < length (programs st) \<longrightarrow>
               programs st' ! a
                 = (append_noise qubits kraus_ops ^^ count_list (concat seqs) a) (programs st ! a))
         \<and> (\<forall>a. a < length (programs st) \<and> count_list (concat seqs) a = 1 \<longrightarrow>
               defined_gates (programs st' ! a)
                 = defined_gates (programs st ! a) @ [(''noise'', eye (2 ^ length qubits))]
             \<and> instructions (programs st' ! a)
                 = instructions (programs st ! a)
                     @ map (AddKraus ''noise'' qubits) kraus_ops @ [Gate ''noise'' qubits])
         \<and> (\<forall>a. a < length (programs st) \<and> a \<notin> set (concat seqs) \<longrightarrow>
               programs st' ! a = programs st ! a)"
proof -
  define st1 where "st1 = st\<lparr>frames := frames st @ [frames st ! df]\<rparr>"
  define ps where "ps = noisy_programs qubits kraus_ops (concat seqs) (programs st)"
  define st' where "st' = st1\<lparr>programs := ps\<rparr>"
  have copy: "frames st1 ! length (frames st) = frames st ! df"
    by (simp add: st1_def)
  have "insert_noise_cells check_kraus_ops (programs st) (map Programs seqs) qubits noise noise_args
      = (ps, Inr ())"
    unfolding ps_def using noise kraus qubits refs by (rule insert_noise_cells_returns)
  then have cells: "insert_noise_cells check_kraus_ops (programs st1) (map Programs seqs) qubits
      noise noise_args = (ps, Inr ())"
    by (simp add: st1_def)
  have run: "add_noise_to_sequences check_kraus_ops st df qubits noise noise_args
      = (st', Inr (length (frames st)))"
    using df
    by (simp add: add_noise_to_sequences_def Let_def st1_def [symmetric] copy col cells st'_def)
  have fr: "frames st' = frames st @ [frames st ! df]"
    by (simp add: st'_def st1_def)
  have pr: "programs st' = ps" by (simp add: st'_def)
  have nth: "programs st' ! a
      = (append_noise qubits kraus_ops ^^ count_list (concat seqs) a) (programs st ! a)"
    if "a < length (programs st)" for a
    using that by (simp add: pr ps_def nth_noisy_programs)
  have once: "defined_gates (programs st' ! a)
                 = defined_gates (programs st ! a) @ [(''noise'', eye (2 ^ length qubits))]
             \<and> instructions (programs st' ! a)
                 = instructions (programs st ! a)
                     @ map (AddKraus ''noise'' qubits) kraus_ops @ [Gate ''noise'' qubits]"
    if "a < length (programs st)" "count_list (concat seqs) a = 1" for a
    using that by (simp add: nth append_noise_def)
  have none: "programs st' ! a = programs st ! a"
    if "a < length (programs st)" "a \<notin> set (concat seqs)" for a
    using that by (simp add: nth count_list_0_iff)
  show ?thesis
  proof (intro exI conjI)
    show "add_noise_to_sequences check_kraus_ops st df qubits noise noise_args
        = (st', Inr (length (frames st)))"
      by (rule run)
    show "length (frames st) = length (frames st)" ..
    show "length (frames st) \<noteq> df" using df by simp
    show "frames st' = frames st @ [frames st ! df]" by (rule fr)
    show "frames st' ! length (frames st) = frames st ! df" by (simp add: fr)
    show "frames st' ! df = frames st ! df" using df by (simp add: fr nth_append)
    show "length (programs st') = length (programs st)" by (simp add: pr ps_def)
    show "\<forall>a. a < length (programs st) \<longrightarrow>
               programs st' ! a
                 = (append_noise qubits kraus_ops ^^ count_list (concat seqs) a) (programs st ! a)"
      using nth by blast
    show "\<forall>a. a < length (programs st) \<and> count_list (concat seqs) a = 1 \<longrightarrow>
               defined_gates (programs st' ! a)
                 = defined_gates (programs st ! a) @ [(''noise'', eye (2 ^ length qubits))]
             \<and> instructions (programs st' ! a)
                 = instructions (programs st ! a)
                     @ map (AddKraus ''noise'' qubits) kraus_ops @ [Gate ''noise'' qubits]"
      using once by blast
    show "\<forall>a. a < length (programs st) \<and> a \<notin> set (concat seqs) \<longrightarrow>
               programs st' ! a = programs st ! a"
      using none by blast
  qed
qed

theorem add_noise_to_sequences_effect_witness:
  "\<exists>st' new_df.
     add_noise_to_sequences kraus_shape_ok
       \<lparr>programs = [\<lparr>defined_gates = [], instructions = [Gate ''H'' [0]]\<rparr>,
                    \<lparr>defined_gates = [], instructions = [Gate ''S'' [0]]\<rparr>],
        frames = [[(''Depth'', [Data 2]), (''Sequence'', [Programs [0, 1]])]]\<rparr>
       0 [0] Inr [eye 2] = (st', Inr new_df)
     \<and> new_df = 1
     \<and> frames st' ! new_df = [(''Depth'', [Data 2]), (''Sequence'', [Programs [0, 1]])]
     \<and> instructions (programs st' ! 0)
         = [Gate ''H'' [0], AddKraus ''noise'' [0] (eye 2), Gate ''noise'' [0]]
     \<and> defined_gates (programs st' ! 1) = [(''noise'', eye 2)]"
proof -
  let ?st = "\<lparr>programs = [\<lparr>defined_gates = [], instructions = [Gate ''H'' [0]]\<rparr>,
                          \<lparr>defined_gates = [], instructions = [Gate ''S'' [0]]\<rparr>],
              frames = [[(''Depth'', [Data 2]), (''Sequence'', [Programs [0, 1]])]]\<rparr>
            :: rat list list store"
  have df: "0 < length (frames ?st)" by simp
  have col: "map_of (frames ?st ! 0) ''Sequence'' = Some (map Programs [[0, 1]])" by simp
  have refs: "\<forall>a\<in>set (concat [[0, 1 :: nat]]). a < length (programs ?st)" by simp
  have noise: "(Inr [eye 2] :: py_error + rat list list list) = Inr [eye 2]" by simp
  have qubits: "[0::nat] \<noteq> []" by simp
  obtain st' new_df where
    run: "add_noise_to_sequences kraus_shape_ok ?st 0 [0] Inr [eye 2] = (st', Inr new_df)"
    and new: "new_df = length (frames ?st)"
    and copy: "frames st' ! new_df = frames ?st ! 0"
    and once: "\<forall>a. a < length (programs ?st) \<and> count_list (concat [[0, 1]]) a = 1 \<longrightarrow>
               defined_gates (programs st' ! a)
                 = defined_gates (programs ?st ! a) @ [(''noise'', eye (2 ^ length [0::nat]))]
             \<and> instructions (programs st' ! a)
                 = instructions (programs ?st ! a)
                     @ map (AddKraus ''noise'' [0]) [eye 2] @ [Gate ''noise'' [0]]"
    using add_noise_to_sequences_effect
      [where st = ?st and df = 0 and seqs = "[[0, 1]]" and noise = Inr
         and noise_args = "[eye 2]" and kraus_ops = "[eye 2]" and qubits = "[0]"
         and check_kraus_ops = kraus_shape_ok,
       OF df col refs noise identity_channel_accepted qubits]
    by blast
  have p0: "instructions (programs st' ! 0)
      = [Gate ''H'' [0], AddKraus ''noise'' [0] (eye 2), Gate ''noise'' [0]]"
    using once [rule_format, of 0] by simp
  have p1: "defined_gates (programs st' ! 1) = [(''noise'', eye 2)]"
    using once [rule_format, of 1] by simp
  have n1: "new_df = 1" using new by simp
  have c1: "frames st' ! new_df = [(''Depth'', [Data 2]), (''Sequence'', [Programs [0, 1]])]"
    using copy by simp
  show ?thesis
    using run n1 c1 p0 p1 by blast
qed

text \<open>
  Claim C10 as stated fails when a \<open>Program\<close> object occurs twice in the column: here the
  one program of the store is listed twice in a sequence, the noise is the identity
  channel on qubit 0, and the program ends with two \<open>"noise"\<close> gate definitions, two
  noisy-gate definitions and two invocations, not one of each.
\<close>

theorem add_noise_to_sequences_counterexample:
  "add_noise_to_sequences kraus_shape_ok
     \<lparr>programs = [\<lparr>defined_gates = [], instructions = []\<rparr>],
      frames = [[(''Sequence'', [Programs [0, 0]])]]\<rparr>
     0 [0] Inr [eye 2]
   = (\<lparr>programs =
         [\<lparr>defined_gates = [(''noise'', eye 2), (''noise'', eye 2)],
           instructions = [AddKraus ''noise'' [0] (eye 2), Gate ''noise'' [0],
                           AddKraus ''noise'' [0] (eye 2), Gate ''noise'' [0]]\<rparr>],
       frames = [[(''Sequence'', [Programs [0, 0]])], [(''Sequence'', [Programs [0, 0]])]]\<rparr>,
      Inr 1)"
  using identity_channel_accepted
  by (simp add: add_noise_to_sequences_def Let_def defgate_def define_noisy_gate_def inst_def)

subsection \<open>The PGDB iteration\<close>

text \<open>A point that backtracking accepts passed the sufficient-decrease test.\<close>

lemma backtrack_accepted:
  "backtrack pr k retries s g t = Some s' \<Longrightarrow>
     objective_value s' \<le> objective_value s - sufficient_decrease k
     \<and> objective_value s' = objective pr (estimate s')"
proof (induction retries arbitrary: t)
  case 0
  then show ?case
    by (auto simp: Let_def candidate_def sufficiently_decreased_def split: if_splits)
next
  case (Suc retries)
  show ?case
  proof (cases "sufficiently_decreased k s (candidate pr s g t)")
    case True
    then show ?thesis
      using Suc.prems by (auto simp: Let_def candidate_def sufficiently_decreased_def)
  next
    case False
    then have "backtrack pr k retries s g (t / 2) = Some s'"
      using Suc.prems by (simp add: Let_def)
    then show ?thesis by (rule Suc.IH)
  qed
qed

lemma non_increasing_Cons:
  "sorted_wrt (\<lambda>a b. b \<le> a) (y # ys) \<Longrightarrow> y \<le> x \<Longrightarrow> sorted_wrt (\<lambda>a b. b \<le> (a::rat)) (x # y # ys)"
  by auto

lemma iterate_non_increasing:
  assumes "0 \<le> sufficient_decrease k"
  shows "sorted_wrt (\<lambda>a b. b \<le> a)
           (map objective_value (s # fst (iterate pr k budget streak s)))"
proof (induction budget arbitrary: s streak)
  case 0
  then show ?case by simp
next
  case (Suc budget)
  show ?case
  proof (cases "backtrack pr k (retry_limit k) s (gradient pr (estimate s)) (step_size s)")
    case None
    then show ?thesis by simp
  next
    case (Some s')
    have le: "objective_value s' \<le> objective_value s"
      using backtrack_accepted [OF Some] assms by simp
    define streak' where "streak' =
      (if objective_value s - objective_value s' < tolerance k then Suc streak else 0)"
    have IH: "sorted_wrt (\<lambda>a b. b \<le> a)
        (map objective_value (s' # fst (iterate pr k budget streak' s')))"
      by (rule Suc.IH)
    show ?thesis
    proof (cases "patience k \<le> streak'")
      case True
      then show ?thesis using le by (simp add: Some streak'_def Let_def)
    next
      case False
      have "fst (iterate pr k (Suc budget) streak s) = s' # fst (iterate pr k budget streak' s')"
        using False by (simp add: Some streak'_def Let_def split: prod.splits)
      then show ?thesis
        using non_increasing_Cons [OF IH [simplified list.map] le] by simp
    qed
  qed
qed

lemma iterate_objective:
  "s' \<in> set (fst (iterate pr k budget streak s)) \<Longrightarrow> objective_value s' = objective pr (estimate s')"
proof (induction budget arbitrary: s streak)
  case 0
  then show ?case by simp
next
  case (Suc budget)
  show ?case
  proof (cases "backtrack pr k (retry_limit k) s (gradient pr (estimate s)) (step_size s)")
    case None
    then show ?thesis using Suc.prems by simp
  next
    case (Some s1)
    define streak' where "streak' =
      (if objective_value s - objective_value s1 < tolerance k then Suc streak else 0)"
    have s1: "objective_value s1 = objective pr (estimate s1)"
      using backtrack_accepted [OF Some] by simp
    have "set (fst (iterate pr k (Suc budget) streak s))
        \<subseteq> insert s1 (set (fst (iterate pr k budget streak' s1)))"
      by (auto simp: Some streak'_def Let_def split: prod.splits if_splits)
    then have "s' = s1 \<or> s' \<in> set (fst (iterate pr k budget streak' s1))"
      using Suc.prems by blast
    then show ?thesis using s1 Suc.IH by blast
  qed
qed

text \<open>
  Claim C3, on the estimator as the specification describes it. When the
  sufficient-decrease threshold is not negative, the objective values of a run, from the
  initial point through every accepted point, never increase: a candidate that fails the
  test is retried with half the step size and is accepted only once it passes, and a run
  whose retries are used up accepts nothing more. Each recorded value is the objective
  at the accepted point.
\<close>

theorem pgdb_objective_non_increasing:
  assumes "0 \<le> sufficient_decrease k"
  shows "sorted_wrt (\<lambda>a b. b \<le> a) (map objective_value (fst (pgdb_run pr k x0)))
       \<and> (\<forall>s\<in>set (fst (pgdb_run pr k x0)). objective_value s = objective pr (estimate s))"
proof -
  define s0 where
    "s0 = \<lparr>estimate = x0, objective_value = objective pr x0, step_size = initial_step k\<rparr>"
  have run: "fst (pgdb_run pr k x0) = s0 # fst (iterate pr k (max_iterations k) 0 s0)"
    by (simp add: pgdb_run_def Let_def s0_def split: prod.splits)
  have "sorted_wrt (\<lambda>a b. b \<le> a)
      (map objective_value (s0 # fst (iterate pr k (max_iterations k) 0 s0)))"
    using assms by (rule iterate_non_increasing)
  moreover have "objective_value s0 = objective pr (estimate s0)"
    by (simp add: s0_def)
  ultimately show ?thesis
    using iterate_objective [of _ pr k "max_iterations k" 0 s0] by (auto simp: run)
qed

text \<open>
  A run in one dimension, minimising \<open>(x - 3)\<^sup>2\<close> from 0 with initial step 1: the first
  candidate, 6, does not decrease the objective; at half the step the candidate 3 is
  accepted; from there no candidate passes the test and the run stalls.
\<close>

theorem pgdb_objective_non_increasing_witness:
  "map objective_value
     (fst (pgdb_run
        \<lparr>objective = \<lambda>x. (x - 3) * (x - 3), gradient = \<lambda>x. 2 * (x - 3),
         descend = \<lambda>x g t. x - t * g, project = \<lambda>x. x\<rparr>
        \<lparr>max_iterations = 3, retry_limit = 2, sufficient_decrease = 1 / 10, growth = 1,
         tolerance = 1 / 1000, patience = 2, initial_step = 1\<rparr>
        0)) = [9, 0]
   \<and> sorted_wrt (\<lambda>a b. b \<le> a) [9, 0 :: rat]"
proof -
  let ?pr = "\<lparr>objective = \<lambda>x. (x - 3) * (x - 3), gradient = \<lambda>x. 2 * (x - 3),
         descend = \<lambda>x g t. x - t * g, project = \<lambda>x. x\<rparr> :: rat pgdb_problem"
  let ?k = "\<lparr>max_iterations = 3, retry_limit = 2, sufficient_decrease = 1 / 10, growth = 1,
         tolerance = 1 / 1000, patience = 2, initial_step = 1\<rparr>"
  have h: "0 \<le> sufficient_decrease ?k" by simp
  have run: "map objective_value (fst (pgdb_run ?pr ?k 0)) = [9, 0]"
    by (simp add: pgdb_run_def Let_def numeral_eq_Suc candidate_def sufficiently_decreased_def)
  show ?thesis
    using pgdb_objective_non_increasing [OF h, of ?pr 0] by (simp only: run)
qed

end
